theory Spec2Isabelle
  imports Main
begin

section \<open>JavaScript values, iterator results and coroutine objects\<close>

text \<open>
  The fragment of JavaScript values the programs handle. \<open>Error\<close> and
  \<open>TypeError\<close> are exception objects, identified by their message.
\<close>

datatype val = Undefined | Num int | Str string | Error string | TypeError string

text \<open>The truthiness test of \<^verbatim>\<open>if (err)\<close>: objects are always truthy.\<close>

fun truthy :: "val \<Rightarrow> bool" where
  "truthy Undefined = False"
| "truthy (Num n) = (n \<noteq> 0)"
| "truthy (Str s) = (s \<noteq> [])"
| "truthy (Error m) = True"
| "truthy (TypeError m) = True"

text \<open>
  The record \<^verbatim>\<open>{done: ..., value: ...}\<close> returned by \<^verbatim>\<open>next\<close> and
  \<^verbatim>\<open>throw\<close>.
\<close>

record 'a iter_result =
  ret_done :: bool
  ret_value :: 'a

text \<open>
  An object with a \<^verbatim>\<open>next\<close> and a \<^verbatim>\<open>throw\<close> method over private state
  \<open>'s\<close>: a generator object, or a hand-written state machine such as the
  adder. A call either raises (\<open>Inl\<close>) or returns an iterator result
  (\<open>Inr\<close>), and leaves the object in a new state.
\<close>

type_synonym ('o, 's) resumed = "(val + 'o iter_result) \<times> 's"

record ('i, 'o, 's) generator =
  g_init :: 's
  g_next :: "'i \<Rightarrow> 's \<Rightarrow> ('o, 's) resumed"
  g_throw :: "val \<Rightarrow> 's \<Rightarrow> ('o, 's) resumed"

section \<open>The adder state machine (generator-error-propagation-solution.js)\<close>

text \<open>
  The adder works on numbers and on \<^verbatim>\<open>undefined\<close>. Numbers are modelled as
  exact integers: JavaScript adds doubles, which agree with them as long as
  operands and sum are integers of magnitude at most \<open>2 ^ 53\<close>; fractions and
  infinities are left out. \<^verbatim>\<open>+\<close> with an operand that is \<^verbatim>\<open>undefined\<close> or
  \<^verbatim>\<open>NaN\<close> gives \<^verbatim>\<open>NaN\<close>.
\<close>

datatype jsnum = Undef | NaN | Number int

fun js_add :: "jsnum \<Rightarrow> jsnum \<Rightarrow> jsnum" where
  "js_add (Number a) (Number b) = Number (a + b)"
| "js_add _ _ = NaN"

text \<open>The variables captured by the closure \<^verbatim>\<open>go\<close>.\<close>

record adder_vars =
  a_state :: string
  a_done :: bool
  a_sum :: jsnum
  a_lastSum :: jsnum
  a_temp :: jsnum

text \<open>
  \<^verbatim>\<open>go(input, err)\<close>. In the state \<^verbatim>\<open>'loop'\<close> the \<^verbatim>\<open>try\<close> block either
  throws \<open>err\<close> at once, and the handler assigns \<^verbatim>\<open>sum = lastSum\<close>, or runs
  its three assignments.
\<close>

definition go :: "jsnum \<Rightarrow> jsnum \<Rightarrow> val \<Rightarrow> adder_vars \<Rightarrow> (jsnum, adder_vars) resumed" where
  "go initialValue input err a =
     (if a_state a = ''initial'' then
        (if truthy err then (Inl err, a)
         else
           let a1 = a\<lparr>a_temp := a_sum a\<rparr>;
               a2 = a1\<lparr>a_state := ''loop''\<rparr>
           in (Inr \<lparr>ret_done = a_done a2, ret_value = initialValue\<rparr>, a2))
      else if a_state a = ''loop'' then
        (let a1 = (if truthy err then a\<lparr>a_sum := a_lastSum a\<rparr>
                   else
                     let b1 = a\<lparr>a_sum := js_add (a_sum a) input\<rparr>;
                         b2 = b1\<lparr>a_lastSum := a_temp b1\<rparr>
                     in b2\<lparr>a_temp := a_sum b2\<rparr>);
             a2 = a1\<lparr>a_state := ''loop''\<rparr>
         in (Inr \<lparr>ret_done = a_done a2, ret_value = a_sum a1\<rparr>, a2))
      else (Inr \<lparr>ret_done = a_done a, ret_value = Undef\<rparr>, a))"

definition adder :: "jsnum \<Rightarrow> (jsnum, jsnum, adder_vars) generator" where
  "adder initialValue =
     \<lparr>g_init = \<lparr>a_state = ''initial'', a_done = False, a_sum = initialValue,
                a_lastSum = Undef, a_temp = Undef\<rparr>,
      g_next = (\<lambda>input. go initialValue input Undefined),
      g_throw = (\<lambda>err. go initialValue Undef err)\<rparr>"

text \<open>
  A straight-line sequence of method calls on one object, each result logged;
  the first call that raises ends the sequence with the exception.
\<close>

datatype 'i call = CallNext 'i | CallThrow val

fun invoke :: "('i, 'o, 's) generator \<Rightarrow> 'i call \<Rightarrow> 's \<Rightarrow> ('o, 's) resumed" where
  "invoke G (CallNext x) s = g_next G x s"
| "invoke G (CallThrow e) s = g_throw G e s"

fun calls :: "('i, 'o, 's) generator \<Rightarrow> 'i call list \<Rightarrow> 's \<Rightarrow> 'o iter_result list \<times> val option" where
  "calls G [] s = ([], None)"
| "calls G (c # cs) s =
     (case invoke G c s of
        (Inl e, s') \<Rightarrow> ([], Some e)
      | (Inr r, s') \<Rightarrow> (case calls G cs s' of (rs, x) \<Rightarrow> (r # rs, x)))"

definition runner_calls :: "jsnum call list" where
  "runner_calls =
     [CallNext Undef, CallNext (Number 1), CallNext (Number 2),
      CallThrow (Error ''BOO)!''), CallNext (Number 4)]"

definition logged :: "int \<Rightarrow> jsnum iter_result" where
  "logged n = \<lparr>ret_done = False, ret_value = Number n\<rparr>"

definition runner :: "jsnum iter_result list \<times> val option" where
  "runner = (let add = adder (Number 0) in calls add runner_calls (g_init add))"

subsection \<open>The generator the state machine transliterates (README.md)\<close>

text \<open>
  \<^verbatim>\<open>function* adder(initialValue)\<close> of the README, as the generator object the
  language gives it: not yet started, suspended at its only \<^verbatim>\<open>yield\<close> (inside
  the \<^verbatim>\<open>try\<close>), or completed. Resuming at the \<^verbatim>\<open>yield\<close> finishes the
  assignment \<^verbatim>\<open>sum += yield sum\<close> and \<^verbatim>\<open>lastSum = temp\<close>, or runs the handler
  \<^verbatim>\<open>sum = lastSum\<close>; either way the loop then starts over with \<^verbatim>\<open>temp = sum\<close>
  and yields \<^verbatim>\<open>sum\<close>.
\<close>

datatype gen_pos = NotStarted | AtYield | Completed

record gen_vars =
  v_pos :: gen_pos
  v_sum :: jsnum
  v_lastSum :: jsnum
  v_temp :: jsnum

definition loop_head :: "gen_vars \<Rightarrow> (jsnum, gen_vars) resumed" where
  "loop_head v =
     (let v1 = v\<lparr>v_temp := v_sum v\<rparr>
      in (Inr \<lparr>ret_done = False, ret_value = v_sum v1\<rparr>, v1\<lparr>v_pos := AtYield\<rparr>))"

definition adder_gen_next :: "jsnum \<Rightarrow> gen_vars \<Rightarrow> (jsnum, gen_vars) resumed" where
  "adder_gen_next input v =
     (case v_pos v of
        NotStarted \<Rightarrow> loop_head v
      | AtYield \<Rightarrow>
          (let v1 = v\<lparr>v_sum := js_add (v_sum v) input\<rparr>;
               v2 = v1\<lparr>v_lastSum := v_temp v1\<rparr>
           in loop_head v2)
      | Completed \<Rightarrow> (Inr \<lparr>ret_done = True, ret_value = Undef\<rparr>, v))"

definition adder_gen_throw :: "val \<Rightarrow> gen_vars \<Rightarrow> (jsnum, gen_vars) resumed" where
  "adder_gen_throw err v =
     (case v_pos v of
        NotStarted \<Rightarrow> (Inl err, v\<lparr>v_pos := Completed\<rparr>)
      | AtYield \<Rightarrow> loop_head (v\<lparr>v_sum := v_lastSum v\<rparr>)
      | Completed \<Rightarrow> (Inl err, v))"

definition adder_generator :: "jsnum \<Rightarrow> (jsnum, jsnum, gen_vars) generator" where
  "adder_generator initialValue =
     \<lparr>g_init = \<lparr>v_pos = NotStarted, v_sum = initialValue, v_lastSum = initialValue,
                v_temp = Undef\<rparr>,
      g_next = adder_gen_next,
      g_throw = adder_gen_throw\<rparr>"

section \<open>Promises and the driver state\<close>

text \<open>
  A promise is represented by the way it settles: fulfilled with a value,
  rejected with a fault, or never. A promise is never fulfilled with another
  promise, so the settlement values are plain values.
\<close>

datatype outcome = Unsettled | Fulfilled val | Rejected val

text \<open>What a generator hands to the driver: a plain value or a promise.\<close>

datatype item = Plain val | Promise outcome

definition deferred :: "val \<Rightarrow> item" where
  "deferred v = Promise (Fulfilled v)"

definition deferReject :: "val \<Rightarrow> item" where
  "deferReject e = Promise (Rejected e)"

text \<open>A resumption of the routine: \<^verbatim>\<open>g.next(v)\<close> or \<^verbatim>\<open>g.throw(e)\<close>.\<close>

type_synonym resumption = "val call"

text \<open>
  The state of one call of \<^verbatim>\<open>co\<close>: the generator object \<^verbatim>\<open>g\<close>, the promise
  that \<^verbatim>\<open>co\<close> returns (\<open>None\<close> while neither \<^verbatim>\<open>resolve\<close> nor \<^verbatim>\<open>reject\<close>
  has taken effect), and the promises on which a settlement callback is
  registered and has not run yet. Two logs are kept beside them: every call of
  \<^verbatim>\<open>g.next\<close> and \<^verbatim>\<open>g.throw\<close> with what it gave, and every exception that
  escaped a settlement callback.
\<close>

record 's driver =
  gen :: 's
  result :: "outcome option"
  subs :: "outcome list"
  trace :: "(resumption \<times> (val + item iter_result)) list"
  unhandled :: "val list"

text \<open>A function of the driver: the new state, and the exception it threw, if any.\<close>

type_synonym 's completion = "'s driver \<times> val option"

text \<open>
  \<^verbatim>\<open>resolve\<close> and \<^verbatim>\<open>reject\<close> of the promise constructor: only the first call
  has an effect. Resolving with a promise makes the result follow that promise.
\<close>

definition resolution :: "item \<Rightarrow> outcome" where
  "resolution x = (case x of Plain v \<Rightarrow> Fulfilled v | Promise p \<Rightarrow> p)"

definition resolve :: "item \<Rightarrow> 's driver \<Rightarrow> 's driver" where
  "resolve x d = (if result d = None then d\<lparr>result := Some (resolution x)\<rparr> else d)"

definition reject :: "val \<Rightarrow> 's driver \<Rightarrow> 's driver" where
  "reject e d = (if result d = None then d\<lparr>result := Some (Rejected e)\<rparr> else d)"

text \<open>
  \<^verbatim>\<open>ret.value.then(...)\<close>: on a promise it registers the callbacks; a plain
  value has no method \<^verbatim>\<open>then\<close>, and the call throws a TypeError.
\<close>

definition then_error :: "val \<Rightarrow> val" where
  "then_error v =
     (case v of
        Undefined \<Rightarrow> TypeError ''Cannot read properties of undefined (reading then)''
      | _ \<Rightarrow> TypeError ''ret.value.then is not a function'')"

definition subscribe :: "item \<Rightarrow> 's driver \<Rightarrow> 's completion" where
  "subscribe x d =
     (case x of
        Promise p \<Rightarrow> (d\<lparr>subs := subs d @ [p]\<rparr>, None)
      | Plain v \<Rightarrow> (d, Some (then_error v)))"

text \<open>
  The executor of \<^verbatim>\<open>new Promise\<close> runs at once; an exception it throws
  rejects the promise.
\<close>

definition executor :: "'s completion \<Rightarrow> 's driver" where
  "executor c = (case c of (d, None) \<Rightarrow> d | (d, Some e) \<Rightarrow> reject e d)"

text \<open>
  An exception thrown by a settlement callback rejects the promise that
  \<^verbatim>\<open>then\<close> returned, which nobody holds.
\<close>

definition callback :: "'s completion \<Rightarrow> 's driver" where
  "callback c = (case c of (d, None) \<Rightarrow> d | (d, Some e) \<Rightarrow> d\<lparr>unhandled := unhandled d @ [e]\<rparr>)"

text \<open>The first registered promise that settles, and the registrations left.\<close>

fun pick :: "outcome list \<Rightarrow> (outcome \<times> outcome list) option" where
  "pick [] = None"
| "pick (Unsettled # ps) = (case pick ps of None \<Rightarrow> None | Some (p, rest) \<Rightarrow> Some (p, Unsettled # rest))"
| "pick (p # ps) = Some (p, ps)"

text \<open>
  One turn of the event loop: a registered promise settles and its callback
  runs, the fulfilment callback on a value, the rejection callback on a fault.
  \<open>None\<close> when no registered promise ever settles.
\<close>

definition settle_step ::
  "(val \<Rightarrow> 's driver \<Rightarrow> 's completion) \<Rightarrow> (val \<Rightarrow> 's driver \<Rightarrow> 's completion) \<Rightarrow>
   's driver \<Rightarrow> 's driver option" where
  "settle_step onFulfilled onRejected d =
     (case pick (subs d) of
        None \<Rightarrow> None
      | Some (p, rest) \<Rightarrow>
          (case p of
             Fulfilled v \<Rightarrow> Some (callback (onFulfilled v (d\<lparr>subs := rest\<rparr>)))
           | Rejected e \<Rightarrow> Some (callback (onRejected e (d\<lparr>subs := rest\<rparr>)))
           | Unsettled \<Rightarrow> None))"

text \<open>At most \<open>n\<close> turns of the event loop, stopping when nothing can run.\<close>

fun run :: "('d \<Rightarrow> 'd option) \<Rightarrow> nat \<Rightarrow> 'd \<Rightarrow> 'd" where
  "run stp 0 d = d"
| "run stp (Suc n) d = (case stp d of None \<Rightarrow> d | Some d' \<Rightarrow> run stp n d')"

definition start :: "(val, item, 's) generator \<Rightarrow> 's driver" where
  "start G = \<lparr>gen = g_init G, result = None, subs = [], trace = [], unhandled = []\<rparr>"

text \<open>Calling a method of \<^verbatim>\<open>g\<close>, logged.\<close>

definition resume :: "(val, item, 's) generator \<Rightarrow> resumption \<Rightarrow> 's driver \<Rightarrow> (val + item iter_result) \<times> 's driver" where
  "resume G r d =
     (case invoke G r (gen d) of
        (x, s') \<Rightarrow> (x, d\<lparr>gen := s', trace := trace d @ [(r, x)]\<rparr>))"

section \<open>The simple driver (co-simple-solution.js)\<close>

definition next_simple :: "(val, item, 's) generator \<Rightarrow> val \<Rightarrow> 's driver \<Rightarrow> 's completion" where
  "next_simple G nextVal d =
     (case resume G (CallNext nextVal) d of
        (Inl e, d1) \<Rightarrow> (d1, Some e)
      | (Inr ret, d1) \<Rightarrow>
          if ret_done ret then (resolve (ret_value ret) d1, None)
          else subscribe (ret_value ret) d1)"

text \<open>
  \<^verbatim>\<open>then(next)\<close> registers no rejection callback: a rejection passes to the
  promise that \<^verbatim>\<open>then\<close> returned.
\<close>

definition step_simple :: "(val, item, 's) generator \<Rightarrow> 's driver \<Rightarrow> 's driver option" where
  "step_simple G = settle_step (next_simple G) (\<lambda>e d. (d, Some e))"

definition co_simple :: "(val, item, 's) generator \<Rightarrow> 's driver" where
  "co_simple G = executor (next_simple G Undefined (start G))"

section \<open>The driver with fault injection (generator-error-propagation-solution.js)\<close>

text \<open>
  \<^verbatim>\<open>next(ret)\<close>; \<open>ret\<close> is \<open>None\<close> when the variable is still
  \<^verbatim>\<open>undefined\<close>, and reading \<^verbatim>\<open>ret.done\<close> then throws a TypeError.
\<close>

definition done_error :: val where
  "done_error = TypeError ''Cannot read properties of undefined (reading done)''"

definition next_error :: "item iter_result option \<Rightarrow> 's driver \<Rightarrow> 's completion" where
  "next_error ret d =
     (case ret of
        None \<Rightarrow> (d, Some done_error)
      | Some r \<Rightarrow>
          if ret_done r then (resolve (ret_value r) d, None)
          else subscribe (ret_value r) d)"

definition onResolve :: "(val, item, 's) generator \<Rightarrow> val \<Rightarrow> 's driver \<Rightarrow> 's completion" where
  "onResolve G v d =
     (case resume G (CallNext v) d of
        (Inl e, d1) \<Rightarrow> next_error None (reject e d1)
      | (Inr ret, d1) \<Rightarrow> next_error (Some ret) d1)"

definition onReject :: "(val, item, 's) generator \<Rightarrow> val \<Rightarrow> 's driver \<Rightarrow> 's completion" where
  "onReject G err d =
     (case resume G (CallThrow err) d of
        (Inl e, d1) \<Rightarrow> next_error None (reject e d1)
      | (Inr ret, d1) \<Rightarrow> next_error (Some ret) d1)"

definition step_error :: "(val, item, 's) generator \<Rightarrow> 's driver \<Rightarrow> 's driver option" where
  "step_error G = settle_step (onResolve G) (onReject G)"

definition co_error :: "(val, item, 's) generator \<Rightarrow> 's driver" where
  "co_error G = executor (onResolve G Undefined (start G))"

text \<open>The callback that a settlement leading to the resumption \<open>r\<close> runs.\<close>

definition settled :: "(val, item, 's) generator \<Rightarrow> resumption \<Rightarrow> 's driver \<Rightarrow> 's completion" where
  "settled G r d = (case r of CallNext v \<Rightarrow> onResolve G v d | CallThrow e \<Rightarrow> onReject G e d)"

section \<open>What a settled result comes from\<close>

text \<open>The two kinds of iterator result.\<close>

definition yield :: "item \<Rightarrow> val + item iter_result" where
  "yield x = Inr \<lparr>ret_done = False, ret_value = x\<rparr>"

definition return :: "item \<Rightarrow> val + item iter_result" where
  "return x = Inr \<lparr>ret_done = True, ret_value = x\<rparr>"

text \<open>
  \<open>settled_from tr out\<close>: the outcome \<open>out\<close> is the one that the last
  resumption logged in \<open>tr\<close> calls for. If that resumption raised \<open>e\<close>, the
  result is rejected with \<open>e\<close>; if the routine finished, the result is resolved
  with the final value; and if the routine, on its very first resumption,
  yielded a plain value, the result is rejected with the TypeError of the call
  of \<^verbatim>\<open>then\<close>.
\<close>

definition settled_from :: "(resumption \<times> (val + item iter_result)) list \<Rightarrow> outcome \<Rightarrow> bool" where
  "settled_from tr out =
     (case rev tr of
        [] \<Rightarrow> False
      | (r, Inl e) # rest \<Rightarrow> out = Rejected e
      | (r, Inr ret) # rest \<Rightarrow>
          if ret_done ret then out = resolution (ret_value ret)
          else rest = [] \<and>
            (case ret_value ret of Plain v \<Rightarrow> out = Rejected (then_error v) | Promise p \<Rightarrow> False))"

text \<open>The promise that a resumption leaves the driver waiting for, if any.\<close>

definition awaited :: "val + item iter_result \<Rightarrow> outcome list" where
  "awaited x =
     (case x of
        Inl e \<Rightarrow> []
      | Inr ret \<Rightarrow>
          if ret_done ret then []
          else (case ret_value ret of Promise p \<Rightarrow> [p] | Plain v \<Rightarrow> []))"

text \<open>
  The states a driver can be in between two turns of the event loop: while the
  result is unsettled at most one promise is registered, and it is the promise
  that the last resumption yielded; once the result is settled none is.
\<close>

definition consistent :: "'s driver \<Rightarrow> bool" where
  "consistent d =
     (case result d of
        None \<Rightarrow>
          (case subs d of
             [] \<Rightarrow> True
           | [p] \<Rightarrow> trace d \<noteq> [] \<and> awaited (snd (last (trace d))) = [p]
           | _ \<Rightarrow> False)
      | Some out \<Rightarrow> subs d = [] \<and> settled_from (trace d) out)"



section \<open>Routines described by what they do when driven\<close>

text \<open>The resumption that the settlement of a promise leads to.\<close>

fun settles_to :: "outcome \<Rightarrow> resumption option" where
  "settles_to (Fulfilled v) = Some (CallNext v)"
| "settles_to (Rejected e) = Some (CallThrow e)"
| "settles_to Unsettled = None"

text \<open>
  \<open>plays G s r ps x\<close>: resumed by \<open>r\<close> in state \<open>s\<close>, the routine yields
  the promises \<open>ps\<close> one after the other, each of which settles, never raises
  when it is resumed with the settlement of the promise it yielded last, and
  then finishes with the final value \<open>x\<close>, a plain value or a promise.
\<close>

fun plays :: "(val, item, 's) generator \<Rightarrow> 's \<Rightarrow> resumption \<Rightarrow> outcome list \<Rightarrow> item \<Rightarrow> bool" where
  "plays G s r [] x =
     (case invoke G r s of
        (Inl e, s') \<Rightarrow> False
      | (Inr ret, s') \<Rightarrow> ret_done ret \<and> ret_value ret = x)"
| "plays G s r (p # ps) x =
     (case invoke G r s of
        (Inl e, s') \<Rightarrow> False
      | (Inr ret, s') \<Rightarrow>
          \<not> ret_done ret \<and> ret_value ret = Promise p \<and>
          (case settles_to p of None \<Rightarrow> False | Some r' \<Rightarrow> plays G s' r' ps x))"

section \<open>Example routines\<close>

text \<open>
  A routine given stage by stage: the \<open>n\<close>-th resumption is answered by the
  \<open>n\<close>-th entry of the table; past the table the routine has completed.
\<close>

definition staged :: "(resumption \<Rightarrow> val + item iter_result) list \<Rightarrow> (val, item, nat) generator" where
  "staged tbl =
     \<lparr>g_init = 0,
      g_next = (\<lambda>v n. (if n < length tbl then (tbl ! n) (CallNext v) else return (Plain Undefined), Suc n)),
      g_throw = (\<lambda>e n. (if n < length tbl then (tbl ! n) (CallThrow e) else Inl e, Suc n))\<rparr>"

text \<open>A stage outside any \<^verbatim>\<open>try\<close>: an injected fault propagates.\<close>

definition uncaught :: "val + item iter_result \<Rightarrow> resumption \<Rightarrow> val + item iter_result" where
  "uncaught x r = (case r of CallNext v \<Rightarrow> x | CallThrow e \<Rightarrow> Inl e)"

text \<open>A stage whose \<^verbatim>\<open>yield\<close> is inside a \<^verbatim>\<open>try\<close> with an empty handler.\<close>

definition caught :: "val + item iter_result \<Rightarrow> resumption \<Rightarrow> val + item iter_result" where
  "caught x r = x"

text \<open>\<^verbatim>\<open>asyncAdds\<close> of co-simple-solution.js.\<close>

definition asyncAdds :: "(val, item, nat) generator" where
  "asyncAdds =
     staged [uncaught (yield (deferred (Num 1))), uncaught (yield (deferred (Num 2))),
             uncaught (yield (deferred (Num 3))), uncaught (return (Plain Undefined))]"


text \<open>The same routine without the \<^verbatim>\<open>try\<close>.\<close>

definition asyncAdds_failing :: "(val, item, nat) generator" where
  "asyncAdds_failing =
     staged [uncaught (yield (deferred (Num 1))),
             uncaught (yield (deferReject (Error ''To fail, or to not fail.''))),
             uncaught (yield (deferred (Num 3))), uncaught (return (Plain Undefined))]"

text \<open>A routine that throws when it is resumed with the value of its first promise.\<close>

definition throws_late :: "(val, item, nat) generator" where
  "throws_late = staged [uncaught (yield (deferred (Num 1))), (\<lambda>r. Inl (Error ''boom''))]"

text \<open>A routine that throws when it is started.\<close>

definition throws_first :: "(val, item, nat) generator" where
  "throws_first = staged [\<lambda>r. Inl (Error ''boom'')]"

text \<open>Routines that yield the number 5 instead of a promise.\<close>

definition plain_first :: "(val, item, nat) generator" where
  "plain_first = staged [uncaught (yield (Plain (Num 5))), uncaught (return (Plain (Num 7)))]"

definition plain_late :: "(val, item, nat) generator" where
  "plain_late =
     staged [uncaught (yield (deferred (Num 1))), uncaught (yield (Plain (Num 5))),
             uncaught (return (Plain (Num 7)))]"

text \<open>Routines whose final value is a rejected promise.\<close>

definition returns_rejected :: "(val, item, nat) generator" where
  "returns_rejected = staged [uncaught (return (deferReject (Error ''E'')))]"

definition returns_rejected_late :: "(val, item, nat) generator" where
  "returns_rejected_late =
     staged [uncaught (yield (deferred (Num 1))), uncaught (return (deferReject (Error ''E'')))]"



text \<open>A routine that returns 42 without yielding.\<close>

definition returns_at_once :: "(val, item, nat) generator" where
  "returns_at_once = staged [uncaught (return (Plain (Num 42)))]"

text \<open>
  A routine that yields promises of 1, 2 and 3 and returns the sum of the
  numbers it was resumed with.
\<close>

fun plus_val :: "int \<Rightarrow> val \<Rightarrow> int" where
  "plus_val acc (Num n) = acc + n"
| "plus_val acc _ = acc"

definition sum_three :: "(val, item, nat \<times> int) generator" where
  "sum_three =
     \<lparr>g_init = (0, 0),
      g_next = (\<lambda>v (n, acc).
        if n = 0 then (yield (deferred (Num 1)), (1, acc))
        else if n = 1 then (yield (deferred (Num 2)), (2, plus_val acc v))
        else if n = 2 then (yield (deferred (Num 3)), (3, plus_val acc v))
        else if n = 3 then (return (Plain (Num (plus_val acc v))), (4, plus_val acc v))
        else (return (Plain Undefined), (n, acc))),
      g_throw = (\<lambda>e (n, acc). (Inl e, (4, acc)))\<rparr>"

section \<open>Turns of the event loop\<close>


lemmas driver_defs = executor_def callback_def next_error_def next_simple_def onResolve_def onReject_def
  resume_def reject_def resolve_def subscribe_def

lemma pick_single: "pick [p] = (if p = Unsettled then None else Some (p, []))"
  by (cases p) simp_all

lemma run_None: "stp d = None \<Longrightarrow> run stp n d = d"
  by (cases n) simp_all



lemma settle_step_single:
  "subs d = [p] \<Longrightarrow> settle_step f g d =
     (case p of Unsettled \<Rightarrow> None
      | Fulfilled v \<Rightarrow> Some (callback (f v (d\<lparr>subs := []\<rparr>)))
      | Rejected e \<Rightarrow> Some (callback (g e (d\<lparr>subs := []\<rparr>))))"
  by (cases p) (simp_all add: settle_step_def)

lemma settle_step_idle: "subs d = [] \<Longrightarrow> settle_step f g d = None"
  by (simp add: settle_step_def)



lemma consistent_subs:
  "consistent d \<Longrightarrow> subs d = [] \<or> (\<exists>p. subs d = [p] \<and> result d = None)"
  by (cases "subs d"; cases "result d") (auto simp: consistent_def split: list.splits)

subsection \<open>The fault-injecting driver keeps its state consistent\<close>

lemma consistent_settled:
  assumes "result d = None" "subs d = []"
  shows "consistent (callback (settled G r d))"
  using assms
  by (cases r) (auto simp: settled_def consistent_def awaited_def driver_defs settled_from_def
      split: prod.splits sum.splits option.splits item.splits if_splits)

lemma consistent_co_error: "consistent (co_error G)"
  by (auto simp: co_error_def start_def consistent_def awaited_def driver_defs settled_from_def
      split: prod.splits sum.splits option.splits item.splits if_splits)

lemma step_error_single:
  "subs d = [p] \<Longrightarrow> step_error G d =
     (case settles_to p of None \<Rightarrow> None | Some r \<Rightarrow> Some (callback (settled G r (d\<lparr>subs := []\<rparr>))))"
  by (cases p) (simp_all add: step_error_def settle_step_single settled_def)

lemma consistent_step_error:
  assumes "consistent d" "step_error G d = Some d'"
  shows "consistent d'"
proof -
  from consistent_subs[OF assms(1)] assms(2)
  obtain p where p: "subs d = [p]" "result d = None"
    by (auto simp: step_error_def settle_step_idle)
  with assms(2) obtain r where "d' = callback (settled G r (d\<lparr>subs := []\<rparr>))"
    by (auto simp: step_error_single split: option.splits)
  with p show ?thesis by (simp add: consistent_settled)
qed

lemma consistent_run_error: "consistent d \<Longrightarrow> consistent (run (step_error G) n d)"
  by (induction n arbitrary: d) (auto split: option.splits intro: consistent_step_error)

subsection \<open>The simple driver keeps its state consistent\<close>

lemma consistent_next_simple:
  assumes "result d = None" "subs d = []"
  shows "consistent (callback (next_simple G v d))"
  using assms
  by (auto simp: consistent_def awaited_def driver_defs settled_from_def
      split: prod.splits sum.splits option.splits item.splits if_splits)

lemma consistent_co_simple: "consistent (co_simple G)"
  by (auto simp: co_simple_def start_def consistent_def awaited_def driver_defs settled_from_def
      split: prod.splits sum.splits option.splits item.splits if_splits)

lemma consistent_step_simple:
  assumes "consistent d" "step_simple G d = Some d'"
  shows "consistent d'"
proof -
  from consistent_subs[OF assms(1)] assms(2)
  obtain p where p: "subs d = [p]" "result d = None"
    by (auto simp: step_simple_def settle_step_idle)
  show ?thesis
  proof (cases p)
    case Unsettled
    with p assms(2) show ?thesis by (simp add: step_simple_def settle_step_single)
  next
    case (Fulfilled v)
    with p assms(2) have "d' = callback (next_simple G v (d\<lparr>subs := []\<rparr>))"
      by (simp add: step_simple_def settle_step_single)
    with p show ?thesis by (simp add: consistent_next_simple)
  next
    case (Rejected e)
    with p assms(2) have "d' = callback (d\<lparr>subs := []\<rparr>, Some e)"
      by (simp add: step_simple_def settle_step_single)
    with p show ?thesis by (simp add: consistent_def callback_def)
  qed
qed

lemma consistent_run_simple: "consistent d \<Longrightarrow> consistent (run (step_simple G) n d)"
  by (induction n arbitrary: d) (auto split: option.splits intro: consistent_step_simple)


text \<open>Every state that a driver reaches is consistent.\<close>

lemmas reach_error = consistent_run_error[OF consistent_co_error]
lemmas reach_simple = consistent_run_simple[OF consistent_co_simple]

text \<open>Unfolding the example routines and the first turns of a driver.\<close>

lemmas fixture_defs = staged_def uncaught_def caught_def yield_def return_def deferred_def deferReject_def
lemmas run_defs = co_error_def co_simple_def step_error_def step_simple_def settle_step_def start_def

section \<open>The simple driver runs a routine to completion\<close>

lemma next_simple_plays:
  assumes "plays G (gen d) (CallNext v) (map Fulfilled vs) x" "subs d = []" "result d = None"
  shows "snd (next_simple G v d) = None \<and>
    (let d' = run (step_simple G) (length vs) (fst (next_simple G v d))
     in result d' = Some (resolution x) \<and>
        map fst (trace d') = map fst (trace d) @ map CallNext (v # vs) \<and>
        subs d' = [] \<and> unhandled d' = unhandled d)"
  using assms
proof (induction vs arbitrary: d v)
  case Nil
  then show ?case
    by (auto simp: driver_defs split: prod.splits sum.splits)
next
  case (Cons a vs)
  obtain ret s' where inv: "invoke G (CallNext v) (gen d) = (Inr ret, s')"
    and ret: "\<not> ret_done ret" "ret_value ret = Promise (Fulfilled a)"
    and rest: "plays G s' (CallNext a) (map Fulfilled vs) x"
    using Cons.prems(1) by (auto split: prod.splits sum.splits)
  define d1 where "d1 = d\<lparr>gen := s', trace := trace d @ [(CallNext v, Inr ret)], subs := [Fulfilled a]\<rparr>"
  define d2 where "d2 = d1\<lparr>subs := []\<rparr>"
  have nxt: "next_simple G v d = (d1, None)"
    using inv ret Cons.prems(2) by (simp add: driver_defs d1_def)
  have ih: "snd (next_simple G a d2) = None \<and>
    (let d' = run (step_simple G) (length vs) (fst (next_simple G a d2))
     in result d' = Some (resolution x) \<and>
        map fst (trace d') = map fst (trace d2) @ map CallNext (a # vs) \<and>
        subs d' = [] \<and> unhandled d' = unhandled d2)"
    using rest Cons.prems by (intro Cons.IH) (simp_all add: d1_def d2_def)
  have "subs d1 = [Fulfilled a]" by (simp add: d1_def)
  then have stp: "step_simple G d1 = Some (fst (next_simple G a d2))"
    using ih
    by (cases "next_simple G a d2") (simp add: step_simple_def settle_step_single callback_def d2_def)
  have "map fst (trace d2) = map fst (trace d) @ [CallNext v]" "unhandled d2 = unhandled d"
    by (simp_all add: d1_def d2_def)
  then show ?case
    using ih by (simp add: nxt stp Let_def)
qed

text \<open>
  C1 as stated fails when the final value is a promise: a routine that yields a
  promise of 1, which is fulfilled, and then returns a rejected promise makes
  the result rejected, not settled with the final value.
\<close>

theorem returns_rejected_late_rejects:
  "plays returns_rejected_late (g_init returns_rejected_late) (CallNext Undefined)
     (map Fulfilled [Num 1]) (deferReject (Error ''E'')) \<and>
   result (run (step_simple returns_rejected_late) 1 (co_simple returns_rejected_late)) =
     Some (Rejected (Error ''E''))"
  by (simp add: returns_rejected_late_def fixture_defs run_defs driver_defs resolution_def)

text \<open>
  C1, as amended. Let the routine, driven by the simple \<^verbatim>\<open>co\<close>, yield \<open>N\<close>
  promises that are fulfilled with the values \<open>vs\<close> and then finish with the
  final value \<open>x\<close>. After \<open>N\<close> turns of the event loop the result is resolved
  with \<open>x\<close>: fulfilled with it if it is a plain value, and settled as \<open>x\<close>
  settles (fulfilled, rejected or never) if it is a promise. The routine has
  been resumed exactly \<open>N + 1\<close> times, always through \<^verbatim>\<open>next\<close>: first with
  \<^verbatim>\<open>undefined\<close>, then with the value of the promise it yielded just before;
  and nothing is left to run.
\<close>

theorem co_simple_drives_to_completion:
  assumes "plays G (g_init G) (CallNext Undefined) (map Fulfilled vs) x"
  shows "let d = run (step_simple G) (length vs) (co_simple G)
         in result d = Some (case x of Plain fin \<Rightarrow> Fulfilled fin | Promise p \<Rightarrow> p) \<and>
            map fst (trace d) = map CallNext (Undefined # vs) \<and>
            length (trace d) = length vs + 1 \<and>
            step_simple G d = None"
proof -
  have p: "plays G (gen (start G)) (CallNext Undefined) (map Fulfilled vs) x"
    using assms by (simp add: start_def)
  have s: "subs (start G) = []" "result (start G) = None" "trace (start G) = []"
    by (simp_all add: start_def)
  note n = next_simple_plays[OF p s(1,2)]
  have co: "co_simple G = fst (next_simple G Undefined (start G))"
    using n by (cases "next_simple G Undefined (start G)") (simp add: co_simple_def executor_def)
  define d where "d = run (step_simple G) (length vs) (co_simple G)"
  have r: "result d = Some (case x of Plain fin \<Rightarrow> Fulfilled fin | Promise p \<Rightarrow> p)"
      "map fst (trace d) = map CallNext (Undefined # vs)"
      "subs d = []"
    using n s(3) by (simp_all add: co d_def Let_def resolution_def)
  have "length (map fst (trace d)) = length vs + 1" by (simp only: r(2)) simp
  then have "length (trace d) = length vs + 1" by simp
  moreover have "step_simple G d = None" using r(3) by (simp add: step_simple_def settle_step_idle)
  ultimately show ?thesis using r unfolding d_def[symmetric] by (simp add: Let_def)
qed

text \<open>
  The routine that yields promises of 1, 2 and 3 and returns the sum of what it
  received makes the result settle with 6.
\<close>

theorem co_simple_drives_to_completion_witness:
  "plays sum_three (g_init sum_three) (CallNext Undefined) (map Fulfilled [Num 1, Num 2, Num 3])
     (Plain (Num 6)) \<and>
   result (run (step_simple sum_three) 3 (co_simple sum_three)) = Some (Fulfilled (Num 6)) \<and>
   map fst (trace (run (step_simple sum_three) 3 (co_simple sum_three))) =
     [CallNext Undefined, CallNext (Num 1), CallNext (Num 2), CallNext (Num 3)]"
proof -
  have h: "plays sum_three (g_init sum_three) (CallNext Undefined)
      (map Fulfilled [Num 1, Num 2, Num 3]) (Plain (Num 6))"
    by (simp add: sum_three_def yield_def return_def deferred_def)
  show ?thesis
    using h co_simple_drives_to_completion[OF h]
    by (simp add: Let_def numeral_3_eq_3 del: run.simps)
qed

section \<open>The fault-injecting driver delivers faults to the routine\<close>





section \<open>A resumption that raises ends the drive\<close>

lemma settled_raises:
  assumes "fst (invoke G r (gen d)) = Inl e" "result d = None"
  shows "settled G r d =
    (d\<lparr>gen := snd (invoke G r (gen d)), trace := trace d @ [(r, Inl e)],
       result := Some (Rejected e)\<rparr>, Some done_error)"
  using assms
  by (cases r; cases "invoke G r (gen d)") (simp_all add: settled_def driver_defs)

lemma turn_raises:
  assumes "consistent d" "subs d = [p]" "settles_to p = Some r"
    "fst (invoke G r (gen d)) = Inl e"
  shows "run (step_error G) (Suc k) d =
    d\<lparr>subs := [], gen := snd (invoke G r (gen d)), trace := trace d @ [(r, Inl e)],
      result := Some (Rejected e), unhandled := unhandled d @ [done_error]\<rparr>"
proof -
  define d0 where "d0 = d\<lparr>subs := []\<rparr>"
  define d1 where "d1 = d\<lparr>subs := [], gen := snd (invoke G r (gen d)),
      trace := trace d @ [(r, Inl e)], result := Some (Rejected e),
      unhandled := unhandled d @ [done_error]\<rparr>"
  have none: "result d = None"
    using consistent_subs[OF assms(1)] assms(2) by auto
  have "settled G r d0 =
    (d0\<lparr>gen := snd (invoke G r (gen d0)), trace := trace d0 @ [(r, Inl e)],
       result := Some (Rejected e)\<rparr>, Some done_error)"
    using assms(4) none by (intro settled_raises) (simp_all add: d0_def)
  then have "step_error G d = Some d1"
    using assms(2,3) by (simp add: step_error_single callback_def d0_def d1_def)
  moreover have "step_error G d1 = None"
    by (simp add: step_error_def settle_step_idle d1_def)
  ultimately show ?thesis
    unfolding d1_def[symmetric] by (simp add: run_None)
qed

lemma co_error_raises:
  assumes "fst (invoke G (CallNext Undefined) (g_init G)) = Inl e"
  shows "run (step_error G) k (co_error G) =
    \<lparr>gen = snd (invoke G (CallNext Undefined) (g_init G)), result = Some (Rejected e), subs = [],
     trace = [(CallNext Undefined, Inl e)], unhandled = []\<rparr>"
proof -
  have "settled G (CallNext Undefined) (start G) =
    ((start G)\<lparr>gen := snd (invoke G (CallNext Undefined) (gen (start G))),
       trace := trace (start G) @ [(CallNext Undefined, Inl e)],
       result := Some (Rejected e)\<rparr>, Some done_error)"
    using assms by (intro settled_raises) (simp_all add: start_def)
  then have co: "co_error G =
    \<lparr>gen = snd (invoke G (CallNext Undefined) (g_init G)), result = Some (Rejected e), subs = [],
     trace = [(CallNext Undefined, Inl e)], unhandled = []\<rparr>"
    by (simp add: co_error_def settled_def executor_def reject_def start_def)
  have "step_error G (co_error G) = None"
    by (simp add: co step_error_def settle_step_idle)
  then show ?thesis by (simp add: run_None co)
qed


text \<open>
  C3. In a state that the fault-injecting \<^verbatim>\<open>co\<close> reaches, let the promise
  waited for be rejected with \<open>f\<close>, and let \<^verbatim>\<open>g.throw(f)\<close> raise \<open>e\<close> (for a
  routine without a handler, \<open>e\<close> is \<open>f\<close> itself). Then after the next turn,
  and after any number of further turns, the result is rejected with \<open>e\<close> and
  the log of resumptions has grown by the failed injection alone.
\<close>

theorem co_error_unhandled_fault:
  assumes "d = run (step_error G) n (co_error G)" "subs d = [Rejected f]"
    "fst (g_throw G f (gen d)) = Inl e"
  shows "let d' = run (step_error G) (Suc k) d
         in result d' = Some (Rejected e) \<and> trace d' = trace d @ [(CallThrow f, Inl e)]"
proof -
  have c: "consistent d" using assms(1) by (simp add: reach_error)
  have f: "fst (invoke G (CallThrow f) (gen d)) = Inl e" using assms(3) by simp
  have eq: "run (step_error G) (Suc k) d =
    d\<lparr>subs := [], gen := snd (invoke G (CallThrow f) (gen d)),
      trace := trace d @ [(CallThrow f, Inl e)],
      result := Some (Rejected e), unhandled := unhandled d @ [done_error]\<rparr>"
    by (rule turn_raises[OF c assms(2) _ f]) simp
  show ?thesis unfolding Let_def eq by simp
qed

text \<open>
  \<^verbatim>\<open>asyncAdds\<close> with a rejected second promise and no \<^verbatim>\<open>try\<close>.
\<close>

theorem co_error_unhandled_fault_witness:
  "subs (run (step_error asyncAdds_failing) 1 (co_error asyncAdds_failing)) =
     [Rejected (Error ''To fail, or to not fail.'')] \<and>
   fst (g_throw asyncAdds_failing (Error ''To fail, or to not fail.'')
     (gen (run (step_error asyncAdds_failing) 1 (co_error asyncAdds_failing)))) =
     Inl (Error ''To fail, or to not fail.'') \<and>
   result (run (step_error asyncAdds_failing) (Suc 5)
     (run (step_error asyncAdds_failing) 1 (co_error asyncAdds_failing))) =
     Some (Rejected (Error ''To fail, or to not fail.'')) \<and>
   length (trace (run (step_error asyncAdds_failing) (Suc 5)
     (run (step_error asyncAdds_failing) 1 (co_error asyncAdds_failing)))) = 3"
proof -
  define d where "d = run (step_error asyncAdds_failing) 1 (co_error asyncAdds_failing)"
  have d: "d = \<lparr>gen = 2, result = None, subs = [Rejected (Error ''To fail, or to not fail.'')],
    trace = [(CallNext Undefined, yield (deferred (Num 1))),
             (CallNext (Num 1), yield (deferReject (Error ''To fail, or to not fail.'')))],
    unhandled = []\<rparr>"
    unfolding d_def by (simp add: asyncAdds_failing_def fixture_defs run_defs driver_defs)
  have h1: "subs d = [Rejected (Error ''To fail, or to not fail.'')]" by (simp add: d)
  have h2: "fst (g_throw asyncAdds_failing (Error ''To fail, or to not fail.'') (gen d)) =
     Inl (Error ''To fail, or to not fail.'')"
    by (simp add: d asyncAdds_failing_def fixture_defs)
  from co_error_unhandled_fault[OF d_def h1 h2, of 5] h1 h2
  show ?thesis unfolding d_def[symmetric] by (simp add: Let_def d del: run.simps)
qed


text \<open>
  C4. If \<^verbatim>\<open>g.next\<close> raises \<open>e\<close>, on the first resumption made by the
  fault-injecting \<^verbatim>\<open>co\<close> or on a later one made with the value of a fulfilled
  promise, the result is rejected with \<open>e\<close>, and however many turns follow,
  that resumption stays the last one.
\<close>

theorem co_error_routine_fault:
  "(fst (g_next G Undefined (g_init G)) = Inl e \<longrightarrow>
      (let d' = run (step_error G) k (co_error G)
       in result d' = Some (Rejected e) \<and> trace d' = [(CallNext Undefined, Inl e)])) \<and>
   (d = run (step_error G) n (co_error G) \<and> subs d = [Fulfilled v] \<and>
    fst (g_next G v (gen d)) = Inl e \<longrightarrow>
      (let d' = run (step_error G) (Suc k) d
       in result d' = Some (Rejected e) \<and> trace d' = trace d @ [(CallNext v, Inl e)]))"
proof (intro conjI impI)
  assume "fst (g_next G Undefined (g_init G)) = Inl e"
  then have "fst (invoke G (CallNext Undefined) (g_init G)) = Inl e" by simp
  from co_error_raises[OF this, of k]
  show "let d' = run (step_error G) k (co_error G)
       in result d' = Some (Rejected e) \<and> trace d' = [(CallNext Undefined, Inl e)]"
    by (simp add: Let_def)
next
  assume a: "d = run (step_error G) n (co_error G) \<and> subs d = [Fulfilled v] \<and>
    fst (g_next G v (gen d)) = Inl e"
  then have c: "consistent d" and s: "subs d = [Fulfilled v]"
    and f: "fst (invoke G (CallNext v) (gen d)) = Inl e"
    by (auto simp: reach_error)
  have eq: "run (step_error G) (Suc k) d =
    d\<lparr>subs := [], gen := snd (invoke G (CallNext v) (gen d)),
      trace := trace d @ [(CallNext v, Inl e)],
      result := Some (Rejected e), unhandled := unhandled d @ [done_error]\<rparr>"
    by (rule turn_raises[OF c s _ f]) simp
  show "let d' = run (step_error G) (Suc k) d
       in result d' = Some (Rejected e) \<and> trace d' = trace d @ [(CallNext v, Inl e)]"
    unfolding Let_def eq by simp
qed

text \<open>
  A routine that throws at once, and one that throws on its second resumption.
\<close>

theorem co_error_routine_fault_witness:
  "fst (g_next throws_first Undefined (g_init throws_first)) = Inl (Error ''boom'') \<and>
   result (run (step_error throws_first) 4 (co_error throws_first)) = Some (Rejected (Error ''boom'')) \<and>
   trace (run (step_error throws_first) 4 (co_error throws_first)) =
     [(CallNext Undefined, Inl (Error ''boom''))] \<and>
   subs (run (step_error throws_late) 0 (co_error throws_late)) = [Fulfilled (Num 1)] \<and>
   fst (g_next throws_late (Num 1) (gen (run (step_error throws_late) 0 (co_error throws_late)))) =
     Inl (Error ''boom'') \<and>
   result (run (step_error throws_late) (Suc 4) (run (step_error throws_late) 0 (co_error throws_late))) =
     Some (Rejected (Error ''boom'')) \<and>
   length (trace (run (step_error throws_late) (Suc 4)
     (run (step_error throws_late) 0 (co_error throws_late)))) = 2"
proof -
  have h1: "fst (g_next throws_first Undefined (g_init throws_first)) = Inl (Error ''boom'')"
    by (simp add: throws_first_def fixture_defs)
  define d where "d = run (step_error throws_late) 0 (co_error throws_late)"
  have d: "d = \<lparr>gen = 1, result = None, subs = [Fulfilled (Num 1)],
    trace = [(CallNext Undefined, yield (deferred (Num 1)))], unhandled = []\<rparr>"
    unfolding d_def by (simp add: throws_late_def fixture_defs run_defs driver_defs)
  have h2: "subs d = [Fulfilled (Num 1)]" by (simp add: d)
  have h3: "fst (g_next throws_late (Num 1) (gen d)) = Inl (Error ''boom'')"
    by (simp add: d throws_late_def fixture_defs)
  from co_error_routine_fault[where G = throws_first and e = "Error ''boom''" and k = 4] h1
  have a: "result (run (step_error throws_first) 4 (co_error throws_first)) = Some (Rejected (Error ''boom'')) \<and>
   trace (run (step_error throws_first) 4 (co_error throws_first)) =
     [(CallNext Undefined, Inl (Error ''boom''))]"
    by (simp add: Let_def del: run.simps)
  from co_error_routine_fault[where G = throws_late and e = "Error ''boom''" and k = 4 and d = d
      and n = 0 and v = "Num 1"] d_def h2 h3
  have b: "result (run (step_error throws_late) (Suc 4) d) = Some (Rejected (Error ''boom'')) \<and>
    trace (run (step_error throws_late) (Suc 4) d) = trace d @ [(CallNext (Num 1), Inl (Error ''boom''))]"
    by (simp add: Let_def del: run.simps)
  then have "length (trace (run (step_error throws_late) (Suc 4) d)) = 2"
    by (simp add: d del: run.simps)
  with a b h1 h2 h3 show ?thesis unfolding d_def[symmetric] by (simp del: run.simps)
qed

text \<open>
  C10. In the fault-injecting \<^verbatim>\<open>co\<close> the \<^verbatim>\<open>catch\<close> blocks do not return.
  When \<^verbatim>\<open>g.next\<close> or \<^verbatim>\<open>g.throw\<close> raises \<open>e\<close>, \<^verbatim>\<open>onResolve\<close> and
  \<^verbatim>\<open>onReject\<close> reject the result with \<open>e\<close> and then call \<^verbatim>\<open>next(ret)\<close>
  with \<open>ret\<close> undefined, so that they throw the TypeError of reading
  \<^verbatim>\<open>ret.done\<close>; no callback is registered. In a settlement callback that
  TypeError is recorded as escaped, after the result has been rejected.
\<close>

theorem co_error_secondary_type_error:
  "(fst (g_next G v (gen d)) = Inl e \<and> result d = None \<longrightarrow>
      (case onResolve G v d of (d', x) \<Rightarrow>
         result d' = Some (Rejected e) \<and> x = Some done_error \<and> subs d' = subs d)) \<and>
   (fst (g_throw G err (gen d)) = Inl e \<and> result d = None \<longrightarrow>
      (case onReject G err d of (d', x) \<Rightarrow>
         result d' = Some (Rejected e) \<and> x = Some done_error \<and> subs d' = subs d)) \<and>
   (d = run (step_error G) n (co_error G) \<and> subs d = [p] \<and> settles_to p = Some r \<and>
    fst (invoke G r (gen d)) = Inl e \<longrightarrow>
      (let d' = run (step_error G) (Suc k) d
       in result d' = Some (Rejected e) \<and> unhandled d' = unhandled d @ [done_error]))"
proof (intro conjI impI)
  assume "fst (g_next G v (gen d)) = Inl e \<and> result d = None"
  with settled_raises[of G "CallNext v" d e]
  show "case onResolve G v d of (d', x) \<Rightarrow>
         result d' = Some (Rejected e) \<and> x = Some done_error \<and> subs d' = subs d"
    by (simp add: settled_def)
next
  assume "fst (g_throw G err (gen d)) = Inl e \<and> result d = None"
  with settled_raises[of G "CallThrow err" d e]
  show "case onReject G err d of (d', x) \<Rightarrow>
         result d' = Some (Rejected e) \<and> x = Some done_error \<and> subs d' = subs d"
    by (simp add: settled_def)
next
  assume a: "d = run (step_error G) n (co_error G) \<and> subs d = [p] \<and> settles_to p = Some r \<and>
    fst (invoke G r (gen d)) = Inl e"
  then have c: "consistent d" and s: "subs d = [p]" and t: "settles_to p = Some r"
    and f: "fst (invoke G r (gen d)) = Inl e"
    by (auto simp: reach_error)
  show "let d' = run (step_error G) (Suc k) d
       in result d' = Some (Rejected e) \<and> unhandled d' = unhandled d @ [done_error]"
    unfolding Let_def turn_raises[OF c s t f] by simp
qed


text \<open>
  The three cases on routines that throw.
\<close>

theorem co_error_secondary_type_error_witness:
  "fst (g_next throws_first Undefined (gen (start throws_first))) = Inl (Error ''boom'') \<and>
   result (start throws_first) = None \<and>
   snd (onResolve throws_first Undefined (start throws_first)) = Some done_error \<and>
   result (fst (onResolve throws_first Undefined (start throws_first))) = Some (Rejected (Error ''boom'')) \<and>
   fst (g_throw asyncAdds (Error ''E'') (gen (start asyncAdds))) = Inl (Error ''E'') \<and>
   result (start asyncAdds) = None \<and>
   snd (onReject asyncAdds (Error ''E'') (start asyncAdds)) = Some done_error \<and>
   subs (run (step_error throws_late) 0 (co_error throws_late)) = [Fulfilled (Num 1)] \<and>
   settles_to (Fulfilled (Num 1)) = Some (CallNext (Num 1)) \<and>
   fst (invoke throws_late (CallNext (Num 1)) (gen (run (step_error throws_late) 0 (co_error throws_late)))) =
     Inl (Error ''boom'') \<and>
   unhandled (run (step_error throws_late) (Suc 0) (run (step_error throws_late) 0 (co_error throws_late))) =
     [done_error]"
proof -
  have a: "fst (g_next throws_first Undefined (gen (start throws_first))) = Inl (Error ''boom'') \<and>
      result (start throws_first) = None"
    by (simp add: throws_first_def fixture_defs start_def)
  have b: "fst (g_throw asyncAdds (Error ''E'') (gen (start asyncAdds))) = Inl (Error ''E'') \<and>
      result (start asyncAdds) = None"
    by (simp add: asyncAdds_def fixture_defs start_def)
  define d where "d = run (step_error throws_late) 0 (co_error throws_late)"
  have d: "d = \<lparr>gen = 1, result = None, subs = [Fulfilled (Num 1)],
    trace = [(CallNext Undefined, yield (deferred (Num 1)))], unhandled = []\<rparr>"
    unfolding d_def by (simp add: throws_late_def fixture_defs run_defs driver_defs)
  have c: "d = run (step_error throws_late) 0 (co_error throws_late) \<and>
    subs d = [Fulfilled (Num 1)] \<and> settles_to (Fulfilled (Num 1)) = Some (CallNext (Num 1)) \<and>
    fst (invoke throws_late (CallNext (Num 1)) (gen d)) = Inl (Error ''boom'')"
  proof (intro conjI)
    show "d = run (step_error throws_late) 0 (co_error throws_late)" by (rule d_def)
  qed (simp_all add: d throws_late_def fixture_defs)
  have a': "snd (onResolve throws_first Undefined (start throws_first)) = Some done_error \<and>
    result (fst (onResolve throws_first Undefined (start throws_first))) = Some (Rejected (Error ''boom''))"
    using a co_error_secondary_type_error[where G = throws_first and v = Undefined
      and d = "start throws_first" and e = "Error ''boom''", THEN conjunct1]
    by (cases "onResolve throws_first Undefined (start throws_first)") simp
  have b': "snd (onReject asyncAdds (Error ''E'') (start asyncAdds)) = Some done_error"
    using b co_error_secondary_type_error[where G = asyncAdds and err = "Error ''E''"
      and d = "start asyncAdds" and e = "Error ''E''", THEN conjunct2, THEN conjunct1]
    by (cases "onReject asyncAdds (Error ''E'') (start asyncAdds)") simp
  have c': "unhandled (run (step_error throws_late) (Suc 0) d) = unhandled d @ [done_error]"
    using c co_error_secondary_type_error[where G = throws_late and d = d and n = 0
      and p = "Fulfilled (Num 1)" and r = "CallNext (Num 1)" and e = "Error ''boom''" and k = 0,
      THEN conjunct2, THEN conjunct2]
    unfolding Let_def by blast
  then have "unhandled (run (step_error throws_late) (Suc 0) d) = [done_error]"
    by (simp add: d del: run.simps)
  with a a' b b' c show ?thesis unfolding d_def[symmetric] by (simp del: run.simps)
qed

section \<open>A routine that yields a plain value\<close>

lemma next_simple_plain:
  assumes "fst (invoke G (CallNext v) (gen d)) = yield (Plain x)"
  shows "next_simple G v d =
    (d\<lparr>gen := snd (invoke G (CallNext v) (gen d)), trace := trace d @ [(CallNext v, yield (Plain x))]\<rparr>,
     Some (then_error x))"
  using assms
  by (cases "invoke G (CallNext v) (gen d)") (simp add: driver_defs yield_def)

text \<open>
  C5, as amended. No resumption follows the one that yields a plain value \<open>x\<close>
  without finishing. If it is the first resumption, which the simple \<^verbatim>\<open>co\<close>
  makes inside the promise executor, the result is rejected with the TypeError
  of calling \<^verbatim>\<open>then\<close> on \<open>x\<close>. If it is a later one, made by a settlement
  callback, the TypeError escapes the callback and the result is left
  unsettled.
\<close>

theorem co_simple_non_promise_yield:
  "(fst (g_next G Undefined (g_init G)) = yield (Plain x) \<longrightarrow>
      (let d' = run (step_simple G) k (co_simple G)
       in result d' = Some (Rejected (then_error x)) \<and>
          trace d' = [(CallNext Undefined, yield (Plain x))])) \<and>
   (d = run (step_simple G) n (co_simple G) \<and> subs d = [Fulfilled v] \<and>
    fst (g_next G v (gen d)) = yield (Plain x) \<longrightarrow>
      (let d' = run (step_simple G) (Suc k) d
       in result d' = None \<and>
          trace d' = trace d @ [(CallNext v, yield (Plain x))] \<and>
          unhandled d' = unhandled d @ [then_error x]))"
proof (intro conjI impI)
  assume "fst (g_next G Undefined (g_init G)) = yield (Plain x)"
  then have "fst (invoke G (CallNext Undefined) (gen (start G))) = yield (Plain x)"
    by (simp add: start_def)
  from next_simple_plain[OF this]
  have co: "co_simple G =
    \<lparr>gen = snd (invoke G (CallNext Undefined) (g_init G)), result = Some (Rejected (then_error x)),
     subs = [], trace = [(CallNext Undefined, yield (Plain x))], unhandled = []\<rparr>"
    by (simp add: co_simple_def executor_def reject_def start_def)
  have "step_simple G (co_simple G) = None"
    by (simp add: co step_simple_def settle_step_idle)
  then have "run (step_simple G) k (co_simple G) = co_simple G" by (rule run_None)
  then show "let d' = run (step_simple G) k (co_simple G)
       in result d' = Some (Rejected (then_error x)) \<and>
          trace d' = [(CallNext Undefined, yield (Plain x))]"
    by (simp add: Let_def co)
next
  assume a: "d = run (step_simple G) n (co_simple G) \<and> subs d = [Fulfilled v] \<and>
    fst (g_next G v (gen d)) = yield (Plain x)"
  then have c: "consistent d" and s: "subs d = [Fulfilled v]"
    and f: "fst (invoke G (CallNext v) (gen (d\<lparr>subs := []\<rparr>))) = yield (Plain x)"
    by (auto simp: reach_simple)
  have none: "result d = None" using consistent_subs[OF c] s by auto
  define d1 where "d1 = d\<lparr>subs := [], gen := snd (invoke G (CallNext v) (gen d)),
      trace := trace d @ [(CallNext v, yield (Plain x))],
      unhandled := unhandled d @ [then_error x]\<rparr>"
  have "step_simple G d = Some d1"
    using s next_simple_plain[OF f]
    by (simp add: step_simple_def settle_step_single callback_def d1_def)
  moreover have "step_simple G d1 = None"
    by (simp add: step_simple_def settle_step_idle d1_def)
  ultimately have "run (step_simple G) (Suc k) d = d1" by (simp add: run_None)
  then show "let d' = run (step_simple G) (Suc k) d
       in result d' = None \<and>
          trace d' = trace d @ [(CallNext v, yield (Plain x))] \<and>
          unhandled d' = unhandled d @ [then_error x]"
    using none by (simp add: Let_def d1_def)
qed

text \<open>
  C5 as stated fails: a routine that yields a promise of 1 and then the number 5
  leaves the result unsettled, with nothing left to run.
\<close>

theorem plain_late_never_settles:
  "result (run (step_simple plain_late) 1 (co_simple plain_late)) = None \<and>
   step_simple plain_late (run (step_simple plain_late) 1 (co_simple plain_late)) = None \<and>
   trace (run (step_simple plain_late) 1 (co_simple plain_late)) =
     [(CallNext Undefined, yield (deferred (Num 1))), (CallNext (Num 1), yield (Plain (Num 5)))]"
  by (simp add: plain_late_def fixture_defs run_defs driver_defs then_error_def)

text \<open>
  A routine that yields 5 at once, and one that yields 5 on its second resumption.
\<close>

theorem co_simple_non_promise_yield_witness:
  "fst (g_next plain_first Undefined (g_init plain_first)) = yield (Plain (Num 5)) \<and>
   result (run (step_simple plain_first) 3 (co_simple plain_first)) =
     Some (Rejected (TypeError ''ret.value.then is not a function'')) \<and>
   length (trace (run (step_simple plain_first) 3 (co_simple plain_first))) = 1 \<and>
   subs (run (step_simple plain_late) 0 (co_simple plain_late)) = [Fulfilled (Num 1)] \<and>
   fst (g_next plain_late (Num 1) (gen (run (step_simple plain_late) 0 (co_simple plain_late)))) =
     yield (Plain (Num 5)) \<and>
   result (run (step_simple plain_late) (Suc 3) (run (step_simple plain_late) 0 (co_simple plain_late))) = None \<and>
   length (trace (run (step_simple plain_late) (Suc 3) (run (step_simple plain_late) 0 (co_simple plain_late)))) = 2"
proof -
  have h1: "fst (g_next plain_first Undefined (g_init plain_first)) = yield (Plain (Num 5))"
    by (simp add: plain_first_def fixture_defs)
  define d where "d = run (step_simple plain_late) 0 (co_simple plain_late)"
  have d: "d = \<lparr>gen = 1, result = None, subs = [Fulfilled (Num 1)],
    trace = [(CallNext Undefined, yield (deferred (Num 1)))], unhandled = []\<rparr>"
    unfolding d_def by (simp add: plain_late_def fixture_defs run_defs driver_defs)
  have h2: "d = run (step_simple plain_late) 0 (co_simple plain_late) \<and>
    subs d = [Fulfilled (Num 1)] \<and> fst (g_next plain_late (Num 1) (gen d)) = yield (Plain (Num 5))"
  proof (intro conjI)
    show "d = run (step_simple plain_late) 0 (co_simple plain_late)" by (rule d_def)
  qed (simp_all add: d plain_late_def fixture_defs)
  from co_simple_non_promise_yield[where G = plain_first and x = "Num 5" and k = 3] h1
  have a: "result (run (step_simple plain_first) 3 (co_simple plain_first)) =
      Some (Rejected (then_error (Num 5))) \<and>
    trace (run (step_simple plain_first) 3 (co_simple plain_first)) =
      [(CallNext Undefined, yield (Plain (Num 5)))]"
    unfolding Let_def by blast
  from co_simple_non_promise_yield[where G = plain_late and x = "Num 5" and k = 3 and d = d
      and n = 0 and v = "Num 1"] h2
  have b: "result (run (step_simple plain_late) (Suc 3) d) = None \<and>
    trace (run (step_simple plain_late) (Suc 3) d) = trace d @ [(CallNext (Num 1), yield (Plain (Num 5)))]"
    unfolding Let_def by blast
  then have "length (trace (run (step_simple plain_late) (Suc 3) d)) = 2"
    by (simp add: d del: run.simps)
  with a b h1 h2 show ?thesis
    unfolding d_def[symmetric] by (simp add: then_error_def del: run.simps)
qed


section \<open>One promise at a time\<close>




text \<open>
  C7 as stated fails when the final value is a promise: a routine that returns
  a rejected promise on its first resumption makes the result rejected.
\<close>

theorem returns_rejected_rejects:
  "fst (g_next returns_rejected Undefined (g_init returns_rejected)) =
     return (deferReject (Error ''E'')) \<and>
   result (co_simple returns_rejected) = Some (Rejected (Error ''E'')) \<and>
   map fst (trace (co_simple returns_rejected)) = [CallNext Undefined]"
  by (simp add: returns_rejected_def fixture_defs run_defs driver_defs resolution_def)

text \<open>
  C7, as amended. If the first resumption finishes with the final value \<open>x\<close>,
  the result of the simple \<^verbatim>\<open>co\<close> is resolved with \<open>x\<close>: fulfilled with it if
  it is a plain value, and settled as \<open>x\<close> settles if it is a promise. However
  many turns follow, the routine has been resumed exactly once, by \<^verbatim>\<open>next\<close>
  with \<^verbatim>\<open>undefined\<close>.
\<close>

theorem co_simple_immediate_return:
  assumes "fst (g_next G Undefined (g_init G)) = return x"
  shows "let d = run (step_simple G) k (co_simple G)
         in result d = Some (case x of Plain fin \<Rightarrow> Fulfilled fin | Promise p \<Rightarrow> p) \<and>
            trace d = [(CallNext Undefined, return x)]"
proof -
  have co: "co_simple G =
    \<lparr>gen = snd (g_next G Undefined (g_init G)),
     result = Some (case x of Plain fin \<Rightarrow> Fulfilled fin | Promise p \<Rightarrow> p), subs = [],
     trace = [(CallNext Undefined, return x)], unhandled = []\<rparr>"
    using assms
    by (cases "g_next G Undefined (g_init G)")
      (simp add: co_simple_def start_def driver_defs return_def resolution_def)
  have "step_simple G (co_simple G) = None"
    by (simp add: co step_simple_def settle_step_idle)
  then have "run (step_simple G) k (co_simple G) = co_simple G" by (rule run_None)
  then show ?thesis by (simp add: Let_def co)
qed

text \<open>
  A routine that returns 42.
\<close>

theorem co_simple_immediate_return_witness:
  "fst (g_next returns_at_once Undefined (g_init returns_at_once)) = return (Plain (Num 42)) \<and>
   result (run (step_simple returns_at_once) 5 (co_simple returns_at_once)) = Some (Fulfilled (Num 42)) \<and>
   trace (run (step_simple returns_at_once) 5 (co_simple returns_at_once)) =
     [(CallNext Undefined, return (Plain (Num 42)))]"
proof -
  have h: "fst (g_next returns_at_once Undefined (g_init returns_at_once)) = return (Plain (Num 42))"
    by (simp add: returns_at_once_def fixture_defs)
  from co_simple_immediate_return[OF h, of 5] h show ?thesis
    unfolding Let_def by simp
qed

section \<open>The result is settled once\<close>








section \<open>The adder state machine against its generator\<close>

lemma adder_never_done:
  "invoke (adder iv) c a = (Inr r, a') \<Longrightarrow> a_done a' = a_done a \<and> ret_done r = a_done a"
  by (cases c) (auto simp: adder_def go_def Let_def split: if_splits)

lemma adder_initial_fault:
  "truthy err \<Longrightarrow> g_throw (adder iv) err (g_init (adder iv)) = (Inl err, g_init (adder iv))"
  by (simp add: adder_def go_def)

lemma adder_loop_fault:
  "truthy err \<Longrightarrow> a_state a = ''loop'' \<Longrightarrow>
   g_throw (adder iv) err a =
     (Inr \<lparr>ret_done = a_done a, ret_value = a_lastSum a\<rparr>, a\<lparr>a_sum := a_lastSum a\<rparr>)"
  by (simp add: adder_def go_def)

text \<open>
  C9. The runner's five calls log 0, 1, 3, 1, 5, each with \<open>done\<close> false. A
  second fault, injected after the addition of 4, makes the state machine
  return 3, the sum before the fault that preceded that addition: the handler
  leaves \<open>temp\<close> stale. The sum before the most recent successful addition was 1,
  and that is what the generator of the README returns.
\<close>

theorem adder_second_fault_stale:
  "runner = ([logged 0, logged 1, logged 3, logged 1, logged 5], None) \<and>
   calls (adder (Number 0)) (runner_calls @ [CallThrow (Error ''BOO)!'')])
     (g_init (adder (Number 0))) =
     ([logged 0, logged 1, logged 3, logged 1, logged 5, logged 3], None) \<and>
   calls (adder_generator (Number 0)) (runner_calls @ [CallThrow (Error ''BOO)!'')])
     (g_init (adder_generator (Number 0))) =
     ([logged 0, logged 1, logged 3, logged 1, logged 5, logged 1], None)"
  by (simp add: runner_def runner_calls_def logged_def adder_def go_def adder_generator_def
      adder_gen_next_def adder_gen_throw_def loop_head_def)

end
